theory Spec2Isabelle
  imports Complex_Main
begin

section \<open>Gesture detector (gesture\_detector.py)\<close>

text \<open>
  Coordinates, thresholds and timestamps are Python floats in the source; they are
  modelled as reals, so the comparisons below are the exact ones, without rounding.
  Drawing on the frame and printing do not influence the control flow and are left out.
\<close>

subsection \<open>Inputs\<close>

text \<open>A MediaPipe normalized landmark; only \<open>.x\<close> and \<open>.y\<close> are read.\<close>

record normalized_landmark =
  lm_x :: real
  lm_y :: real

text \<open>
  \<open>hand_landmarks.landmark[i]\<close> and \<open>face_landmarks.landmark[i]\<close>: MediaPipe always
  delivers the full landmark list (21 points for a hand), so indexing is total.
\<close>

record landmark_list =
  landmark :: "nat \<Rightarrow> normalized_landmark"

text \<open>
  What one call of \<open>detect_gesture\<close> reads from its environment: \<open>time.time()\<close>, and
  the two landmark results.  A result that is \<open>None\<close> in Python is the empty list
  here (both are falsy in the tests \<open>if hand_results.multi_hand_landmarks:\<close>).
  The hand tracker is created with \<open>max_num_hands=1\<close>, so the list of hands has at most
  one element; the step is still written as the loop over the list that the source has.
\<close>

record frame_input =
  current_time :: real
  multi_hand_landmarks :: "landmark_list list"
  multi_face_landmarks :: "landmark_list list"

datatype gesture = Left | Right

subsection \<open>Detector state and configuration\<close>

record gesture_detector =
  previous_x :: "real option"
  start_x :: "real option"
  last_gesture_time :: real
  gesture_started :: bool
  movement_frames :: int
  finger_licked :: bool
  lick_time :: real
  was_at_lips :: bool
  position_history :: "real list"
  thumb_history :: "real list"

definition swipe_threshold_left :: real where "swipe_threshold_left = 0.10"
definition swipe_threshold_right :: real where "swipe_threshold_right = 0.12"
definition fast_swipe_threshold :: real where "fast_swipe_threshold = 0.20"
definition gesture_cooldown :: real where "gesture_cooldown = 1.5"
definition min_frames :: int where "min_frames = 3"
definition max_frames :: int where "max_frames = 25"
definition lick_timeout :: real where "lick_timeout = 5.0"
definition history_size :: nat where "history_size = 15"

text \<open>The state built by \<open>__init__\<close>.\<close>

definition init :: gesture_detector where
  "init = \<lparr> previous_x = None, start_x = None, last_gesture_time = 0,
            gesture_started = False, movement_frames = 0, finger_licked = False,
            lick_time = 0, was_at_lips = False, position_history = [],
            thumb_history = [] \<rparr>"

subsection \<open>Priming detector\<close>

definition is_finger_lick_pose :: "landmark_list \<Rightarrow> bool" where
  "is_finger_lick_pose hand_landmarks =
     (let index_tip = landmark hand_landmarks 8;
          index_pip = landmark hand_landmarks 6;
          middle_tip = landmark hand_landmarks 12;
          ring_tip = landmark hand_landmarks 16;
          pinky_tip = landmark hand_landmarks 20;
          index_extended = (lm_y index_tip < lm_y index_pip - 0.05);
          index_near_top = (lm_y index_tip < 0.5);
          index_most_extended = (lm_y index_tip < lm_y middle_tip - 0.05 \<and>
                                 lm_y index_tip < lm_y ring_tip - 0.05 \<and>
                                 lm_y index_tip < lm_y pinky_tip - 0.05)
      in index_extended \<and> index_near_top \<and> index_most_extended)"

text \<open>The dictionary \<open>lip_region\<close> with its keys \<open>'x'\<close>, \<open>'y'\<close>, \<open>'radius'\<close>.\<close>

record lip_region =
  zone_x :: real
  zone_y :: real
  zone_radius :: real

definition lip_radius :: real where "lip_radius = 0.08"

definition lip_region_of :: "landmark_list list \<Rightarrow> lip_region option" where
  "lip_region_of faces =
     (case faces of
        [] \<Rightarrow> None
      | face_landmarks # _ \<Rightarrow>
          (let upper_lip = landmark face_landmarks 13;
               lower_lip = landmark face_landmarks 14;
               lip_center_x = (lm_x upper_lip + lm_x lower_lip) / 2;
               lip_center_y = (lm_y upper_lip + lm_y lower_lip) / 2
           in Some \<lparr> zone_x = lip_center_x, zone_y = lip_center_y,
                     zone_radius = lip_radius \<rparr>))"

definition finger_at_lips :: "landmark_list \<Rightarrow> lip_region option \<Rightarrow> bool" where
  "finger_at_lips hand_landmarks region =
     (case region of
        None \<Rightarrow> False
      | Some z \<Rightarrow>
          (let index_tip = landmark hand_landmarks 8;
               dx = lm_x index_tip - zone_x z;
               dy = lm_y index_tip - zone_y z;
               distance = sqrt (dx\<^sup>2 + dy\<^sup>2)
           in distance < zone_radius z))"

definition currently_at_lips :: "landmark_list \<Rightarrow> lip_region option \<Rightarrow> bool" where
  "currently_at_lips hand_landmarks region =
     (is_finger_lick_pose hand_landmarks \<or> finger_at_lips hand_landmarks region)"

subsection \<open>Priming bookkeeping\<close>

text \<open>The expiry test at the top of \<open>detect_gesture\<close>.\<close>

definition expire_lick :: "real \<Rightarrow> gesture_detector \<Rightarrow> gesture_detector" where
  "expire_lick t s =
     (if finger_licked s \<and> t - lick_time s > lick_timeout
      then s\<lparr> finger_licked := False \<rparr> else s)"

text \<open>The \<open>if currently_at_lips: ... elif ...\<close> block.\<close>

definition update_lick :: "real \<Rightarrow> bool \<Rightarrow> gesture_detector \<Rightarrow> gesture_detector" where
  "update_lick t at_lips s =
     (if at_lips then
        (let s1 = s\<lparr> was_at_lips := True \<rparr>
         in if \<not> finger_licked s1
            then s1\<lparr> finger_licked := True, lick_time := t, last_gesture_time := 0 \<rparr>
            else s1)
      else if was_at_lips s \<and> finger_licked s then s\<lparr> was_at_lips := False \<rparr>
      else s)"

subsection \<open>Position histories\<close>

text \<open>\<open>append\<close> followed by \<open>pop(0)\<close> once the list is longer than \<open>history_size\<close>.\<close>

definition push_history :: "real \<Rightarrow> real list \<Rightarrow> real list" where
  "push_history v h =
     (let h1 = h @ [v] in if length h1 > history_size then tl h1 else h1)"

subsection \<open>Swipe classifier\<close>

text \<open>
  The loop \<open>for i in range(1, len(h))\<close> with its two counters, as a fold over the
  indices; the result is the pair (rightward votes, leftward votes).
\<close>

definition vote_step :: "real list \<Rightarrow> nat \<Rightarrow> nat \<times> nat \<Rightarrow> nat \<times> nat" where
  "vote_step h i c =
     (let diff = h ! i - h ! (i - 1)
      in if diff > 0.01 then (fst c + 1, snd c)
         else if diff < - 0.01 then (fst c, snd c + 1)
         else c)"

definition count_votes :: "real list \<Rightarrow> nat \<times> nat" where
  "count_votes h = fold (vote_step h) [1 ..< length h] (0, 0)"

text \<open>
  The decision computed inside the branch guarded by the sample counts.  The source
  reads \<open>position_history[0]\<close> and \<open>position_history[-1]\<close>, which exist because the
  guard demands at least five samples.  \<open>thumb_movement\<close> and \<open>avg_speed\<close> are
  computed by the source but only printed or unused.
\<close>

definition classify_swipe :: "real list \<Rightarrow> real list \<Rightarrow> gesture option" where
  "classify_swipe pos_hist th_hist =
     (let start_pos = pos_hist ! 0;
          end_pos = last pos_hist;
          total_movement = end_pos - start_pos;
          movements_right = fst (count_votes pos_hist);
          movements_left = snd (count_votes pos_hist);
          thumb_right = fst (count_votes th_hist);
          thumb_left = snd (count_votes th_hist);
          total_movements = movements_right + movements_left;
          total_thumb_movements = thumb_right + thumb_left
      in if total_movements > 0 \<and> total_thumb_movements > 0 then
           (let right_ratio = real movements_right / real total_movements;
                left_ratio = real movements_left / real total_movements;
                thumb_right_ratio = real thumb_right / real total_thumb_movements;
                thumb_left_ratio = real thumb_left / real total_thumb_movements;
                thumb_finger_agreement_right =
                  (right_ratio > 0.5 \<and> thumb_right_ratio > 0.5);
                thumb_finger_agreement_left =
                  (left_ratio > 0.45 \<and> thumb_left_ratio > 0.45);
                is_fast_swipe = (\<bar>total_movement\<bar> > fast_swipe_threshold);
                required_consistency_left = (if is_fast_swipe then 0.45 else 0.55);
                required_consistency_right = (if is_fast_swipe then 0.5 else 0.6)
            in if total_movement > swipe_threshold_right \<and>
                  right_ratio > required_consistency_right \<and>
                  thumb_finger_agreement_right
               then Some Right
               else if total_movement < - swipe_threshold_left \<and>
                       left_ratio > required_consistency_left \<and>
                       thumb_finger_agreement_left
               then Some Left
               else None)
         else None)"

subsection \<open>The per-frame step\<close>

definition reset_tracking :: "gesture_detector \<Rightarrow> gesture_detector" where
  "reset_tracking s =
     s\<lparr> gesture_started := False, position_history := [], thumb_history := [] \<rparr>"

definition emit_swipe :: "real \<Rightarrow> gesture_detector \<Rightarrow> gesture_detector" where
  "emit_swipe t s =
     s\<lparr> last_gesture_time := t, gesture_started := False, finger_licked := False,
        position_history := [], thumb_history := [] \<rparr>"

text \<open>
  The branch \<open>if self.finger_licked and not currently_at_lips\<close>.  The classifier is a
  parameter, so that one can say which steps depend on it; the program uses
  \<open>classify_swipe\<close>.  The pair carries the local variable \<open>gesture\<close> and the state.
\<close>

definition track_swipe_with ::
  "(real list \<Rightarrow> real list \<Rightarrow> gesture option) \<Rightarrow> real \<Rightarrow> real \<Rightarrow> real \<Rightarrow>
   gesture option \<times> gesture_detector \<Rightarrow> gesture option \<times> gesture_detector" where
  "track_swipe_with cls t current_x thumb_x gs =
     (let g = fst gs; s = snd gs;
          s1 = s\<lparr> position_history := push_history current_x (position_history s),
                  thumb_history := push_history thumb_x (thumb_history s) \<rparr>
      in if \<not> gesture_started s1
         then (g, s1\<lparr> start_x := Some current_x, gesture_started := True,
                      movement_frames := 0 \<rparr>)
         else
           (let s2 = s1\<lparr> movement_frames := movement_frames s1 + 1 \<rparr>;
                gs3 =
                  (if t - last_gesture_time s2 \<le> gesture_cooldown
                   then (g, reset_tracking s2)
                   else if movement_frames s2 \<ge> min_frames \<and>
                           length (position_history s2) \<ge> 5 \<and>
                           length (thumb_history s2) \<ge> 5
                   then (case cls (position_history s2) (thumb_history s2) of
                           Some d \<Rightarrow> (Some d, emit_swipe t s2)
                         | None \<Rightarrow> (g, s2))
                   else (g, s2))
            in if movement_frames (snd gs3) > max_frames
               then (fst gs3, reset_tracking (snd gs3))
               else gs3))"

text \<open>The body of \<open>for hand_landmarks in hand_results.multi_hand_landmarks\<close>.\<close>

definition process_hand_with ::
  "(real list \<Rightarrow> real list \<Rightarrow> gesture option) \<Rightarrow> real \<Rightarrow> lip_region option \<Rightarrow>
   landmark_list \<Rightarrow> gesture option \<times> gesture_detector \<Rightarrow>
   gesture option \<times> gesture_detector" where
  "process_hand_with cls t region hand_landmarks gs =
     (let at_lips = currently_at_lips hand_landmarks region;
          s1 = update_lick t at_lips (snd gs);
          current_x = lm_x (landmark hand_landmarks 12);
          thumb_x = lm_x (landmark hand_landmarks 4)
      in if finger_licked s1 \<and> \<not> at_lips
         then track_swipe_with cls t current_x thumb_x (fst gs, s1)
         else (fst gs, reset_tracking s1))"

definition detect_gesture_with ::
  "(real list \<Rightarrow> real list \<Rightarrow> gesture option) \<Rightarrow> gesture_detector \<Rightarrow> frame_input \<Rightarrow>
   gesture option \<times> gesture_detector" where
  "detect_gesture_with cls s f =
     (let t = current_time f;
          s1 = expire_lick t s;
          region = lip_region_of (multi_face_landmarks f)
      in if multi_hand_landmarks f \<noteq> []
         then fold (process_hand_with cls t region) (multi_hand_landmarks f) (None, s1)
         else (None, s1\<lparr> gesture_started := False, start_x := None \<rparr>))"

definition detect_gesture ::
  "gesture_detector \<Rightarrow> frame_input \<Rightarrow> gesture option \<times> gesture_detector" where
  "detect_gesture = detect_gesture_with classify_swipe"

definition reset :: "gesture_detector \<Rightarrow> gesture_detector" where
  "reset s =
     s\<lparr> start_x := None, gesture_started := False, movement_frames := 0,
        last_gesture_time := 0, position_history := [], thumb_history := [],
        finger_licked := False \<rparr>"

subsection \<open>Executions\<close>

text \<open>The state after a sequence of frames, and the events the frames produced.\<close>

fun run :: "gesture_detector \<Rightarrow> frame_input list \<Rightarrow> gesture_detector" where
  "run s [] = s"
| "run s (f # fs) = run (snd (detect_gesture s f)) fs"

fun gestures_of :: "gesture_detector \<Rightarrow> frame_input list \<Rightarrow> gesture option list" where
  "gestures_of s [] = []"
| "gestures_of s (f # fs) =
     fst (detect_gesture s f) # gestures_of (snd (detect_gesture s f)) fs"

text \<open>Calls a client can make on a detector, for invariants of all reachable states.\<close>

datatype call = Detect frame_input | Reset

fun apply_call :: "gesture_detector \<Rightarrow> call \<Rightarrow> gesture_detector" where
  "apply_call s (Detect f) = snd (detect_gesture s f)"
| "apply_call s Reset = reset s"

definition exec :: "gesture_detector \<Rightarrow> call list \<Rightarrow> gesture_detector" where
  "exec s cs = foldl apply_call s cs"

section \<open>Page navigation (pdf\_reader.py, main.py)\<close>

record 'img pdf_processor =
  pages :: "'img list"
  current_page :: int

definition next_page :: "'img pdf_processor \<Rightarrow> bool \<times> 'img pdf_processor" where
  "next_page p =
     (if current_page p < int (length (pages p)) - 1
      then (True, p\<lparr> current_page :=
                       min (current_page p + 2) (int (length (pages p)) - 1) \<rparr>)
      else (False, p))"

definition previous_page :: "'img pdf_processor \<Rightarrow> bool \<times> 'img pdf_processor" where
  "previous_page p =
     (if current_page p > 0
      then (True, p\<lparr> current_page := max (current_page p - 2) 0 \<rparr>)
      else (False, p))"

text \<open>The gesture dispatch of the main loop (\<open>PDFBookReader.run\<close>).\<close>

definition handle_gesture ::
  "gesture option \<Rightarrow> 'img pdf_processor \<Rightarrow> 'img pdf_processor" where
  "handle_gesture g p =
     (if g = Some Left then snd (next_page p)
      else if g = Some Right then snd (previous_page p)
      else p)"

datatype nav = NextPage | PreviousPage

fun nav_step :: "'img pdf_processor \<Rightarrow> nav \<Rightarrow> 'img pdf_processor" where
  "nav_step p NextPage = snd (next_page p)"
| "nav_step p PreviousPage = snd (previous_page p)"

section \<open>Specification-level notions\<close>

text \<open>The Euclidean distance of two points of the normalized frame.\<close>

definition euclidean_distance :: "real \<times> real \<Rightarrow> real \<times> real \<Rightarrow> real" where
  "euclidean_distance a b = sqrt ((fst a - fst b)\<^sup>2 + (snd a - snd b)\<^sup>2)"

text \<open>
  The swipe classifier as the specification words it: the steps of a history are the
  differences of its consecutive pairs, a step above 0.01 is a rightward vote, a step
  below -0.01 a leftward vote, and the decision checks right before left.
\<close>

definition steps :: "real list \<Rightarrow> real list" where
  "steps h = map (\<lambda>(a, b). b - a) (zip h (tl h))"

definition votes_right :: "real list \<Rightarrow> nat" where
  "votes_right h = length (filter (\<lambda>d. d > 0.01) (steps h))"

definition votes_left :: "real list \<Rightarrow> nat" where
  "votes_left h = length (filter (\<lambda>d. d < - 0.01) (steps h))"

definition net_displacement :: "real list \<Rightarrow> real" where
  "net_displacement h = last h - hd h"

definition swipe_classifier_spec :: "real list \<Rightarrow> real list \<Rightarrow> gesture option" where
  "swipe_classifier_spec Hf Ht =
     (let Df = net_displacement Hf;
          finger_votes = votes_right Hf + votes_left Hf;
          thumb_votes = votes_right Ht + votes_left Ht;
          finger_right_ratio = real (votes_right Hf) / real finger_votes;
          finger_left_ratio = real (votes_left Hf) / real finger_votes;
          thumb_right_ratio = real (votes_right Ht) / real thumb_votes;
          thumb_left_ratio = real (votes_left Ht) / real thumb_votes
      in if finger_votes = 0 \<or> thumb_votes = 0 then None
         else if Df > 0.12 \<and>
                 finger_right_ratio > (if \<bar>Df\<bar> > 0.20 then 0.5 else 0.6) \<and>
                 finger_right_ratio > 0.5 \<and> thumb_right_ratio > 0.5
         then Some Right
         else if Df < - 0.10 \<and>
                 finger_left_ratio > (if \<bar>Df\<bar> > 0.20 then 0.45 else 0.55) \<and>
                 finger_left_ratio > 0.45 \<and> thumb_left_ratio > 0.45
         then Some Left
         else None)"

text \<open>A frame in which some detected hand shows the priming pose.\<close>

definition priming_frame :: "frame_input \<Rightarrow> bool" where
  "priming_frame f =
     list_ex (\<lambda>hand. currently_at_lips hand (lip_region_of (multi_face_landmarks f)))
       (multi_hand_landmarks f)"

section \<open>Concrete inputs\<close>

text \<open>
  A hand whose index fingertip is at height \<open>tip_y\<close> and whose middle fingertip and
  thumb tip are at the given abscissae; every other landmark sits at (0.5, 0.7).
\<close>

definition mk_hand :: "real \<Rightarrow> real \<Rightarrow> real \<Rightarrow> landmark_list" where
  "mk_hand tip_y mid_x thumb_x =
     \<lparr> landmark = (\<lambda>i. if i = 8 then \<lparr> lm_x = 0.5, lm_y = tip_y \<rparr>
                        else if i = 12 then \<lparr> lm_x = mid_x, lm_y = 0.7 \<rparr>
                        else if i = 4 then \<lparr> lm_x = thumb_x, lm_y = 0.7 \<rparr>
                        else \<lparr> lm_x = 0.5, lm_y = 0.7 \<rparr>) \<rparr>"

text \<open>A face whose two lip landmarks are at (0.5, 0.58) and (0.5, 0.62).\<close>

definition mk_face :: landmark_list where
  "mk_face =
     \<lparr> landmark = (\<lambda>i. if i = 13 then \<lparr> lm_x = 0.5, lm_y = 0.58 \<rparr>
                        else if i = 14 then \<lparr> lm_x = 0.5, lm_y = 0.62 \<rparr>
                        else \<lparr> lm_x = 0.5, lm_y = 0.4 \<rparr>) \<rparr>"

text \<open>A frame showing the finger-lick pose, and a frame of a sweeping hand.\<close>

definition lick_frame :: "real \<Rightarrow> frame_input" where
  "lick_frame t =
     \<lparr> current_time = t, multi_hand_landmarks = [mk_hand 0.2 0.3 0.3],
       multi_face_landmarks = [] \<rparr>"

definition sweep_frame :: "real \<Rightarrow> real \<Rightarrow> frame_input" where
  "sweep_frame t v =
     \<lparr> current_time = t, multi_hand_landmarks = [mk_hand 0.6 v v],
       multi_face_landmarks = [] \<rparr>"

definition no_hand_frame :: "real \<Rightarrow> frame_input" where
  "no_hand_frame t =
     \<lparr> current_time = t, multi_hand_landmarks = [], multi_face_landmarks = [] \<rparr>"

definition book3 :: "nat pdf_processor" where
  "book3 = \<lparr> pages = [1, 2, 3], current_page = 0 \<rparr>"

text \<open>
  Priming at time 100 followed by the first four samples of a rightward sweep; the
  sample 0.45 at time 100.5 completes the sweep.
\<close>

definition primed_sweep :: "frame_input list" where
  "primed_sweep =
     [lick_frame 100, sweep_frame 100.1 0.30, sweep_frame 100.2 0.33,
      sweep_frame 100.3 0.36, sweep_frame 100.4 0.40]"

text \<open>
  The frames that follow the sweep in \<open>repriming_run\<close> below, with the priming pose at
  time 100.6 replaced by a resting hand.
\<close>

definition second_sweep :: "frame_input list" where
  "second_sweep =
     [sweep_frame 100.6 0.30, sweep_frame 100.7 0.30, sweep_frame 100.8 0.33,
      sweep_frame 100.9 0.36, sweep_frame 101.0 0.40]"

text \<open>Two primed sweeps, the second one starting 0.1 s after the first swipe.\<close>

definition repriming_run :: "frame_input list" where
  "repriming_run =
     [lick_frame 100, sweep_frame 100.1 0.30, sweep_frame 100.2 0.33,
      sweep_frame 100.3 0.36, sweep_frame 100.4 0.40, sweep_frame 100.5 0.45,
      lick_frame 100.6, sweep_frame 100.7 0.30, sweep_frame 100.8 0.33,
      sweep_frame 100.9 0.36, sweep_frame 101.0 0.40, sweep_frame 101.1 0.45]"

text \<open>Priming followed by seventeen frames of a hand that does not move.\<close>

definition static_run :: "call list" where
  "static_run =
     Detect (lick_frame 100) #
     map (\<lambda>i. Detect (sweep_frame (100 + real i / 10) 0.3)) [1 ..< 18]"

section \<open>Auxiliary facts\<close>

lemma sqrt_less_iff_sq:
  fixes a r :: real
  assumes "0 \<le> a"
  shows "sqrt a < r \<longleftrightarrow> 0 < r \<and> a < r\<^sup>2"
proof
  assume h: "sqrt a < r"
  have nonneg: "0 \<le> sqrt a" using assms by simp
  with h have r: "0 < r" by linarith
  from h nonneg have "(sqrt a)\<^sup>2 < r\<^sup>2" by (intro power_strict_mono) auto
  with assms r show "0 < r \<and> a < r\<^sup>2" by simp
next
  assume "0 < r \<and> a < r\<^sup>2"
  then show "sqrt a < r" by (simp add: real_less_lsqrt)
qed

text \<open>A square-root-free form of the proximity test, used to evaluate it.\<close>

lemma finger_at_lips_code [code]:
  "finger_at_lips hand_landmarks region =
     (case region of
        None \<Rightarrow> False
      | Some z \<Rightarrow>
          0 < zone_radius z \<and>
          (lm_x (landmark hand_landmarks 8) - zone_x z)\<^sup>2 +
          (lm_y (landmark hand_landmarks 8) - zone_y z)\<^sup>2 < (zone_radius z)\<^sup>2)"
  by (cases region) (simp_all add: finger_at_lips_def Let_def sqrt_less_iff_sq)

section \<open>Page navigation\<close>

lemma nav_step_pages: "pages (nav_step p n) = pages p"
  by (cases n) (simp_all add: next_page_def previous_page_def)

lemma nav_step_range:
  assumes "0 \<le> current_page p" "current_page p \<le> int (length (pages p)) - 1"
  shows "0 \<le> current_page (nav_step p n) \<and>
         current_page (nav_step p n) \<le> int (length (pages p)) - 1"
  using assms by (cases n) (auto simp add: next_page_def previous_page_def)

lemma foldl_nav_range:
  assumes "0 \<le> current_page p" "current_page p \<le> int (length (pages p)) - 1"
  shows "pages (foldl nav_step p ns) = pages p \<and>
         0 \<le> current_page (foldl nav_step p ns) \<and>
         current_page (foldl nav_step p ns) \<le> int (length (pages p)) - 1"
  using assms
proof (induction ns arbitrary: p)
  case Nil
  then show ?case by simp
next
  case (Cons n ns)
  have "0 \<le> current_page (nav_step p n) \<and>
        current_page (nav_step p n) \<le> int (length (pages (nav_step p n))) - 1"
    using nav_step_range [OF Cons.prems] by (simp add: nav_step_pages)
  then show ?case using Cons.IH [of "nav_step p n"] by (simp add: nav_step_pages)
qed

text \<open>
  Claim C10.  For a document with at least one page, starting at page 0, every sequence
  of \<open>next_page\<close> and \<open>previous_page\<close> calls keeps \<open>current_page\<close> within
  \<open>[0, page_count - 1]\<close>.  In any state \<open>q\<close>, \<open>next_page\<close> returns True exactly when
  \<open>current_page < page_count - 1\<close> and then moves to \<open>min (current_page + 2)
  (page_count - 1)\<close>, otherwise it changes nothing; \<open>previous_page\<close> returns True exactly
  when \<open>current_page > 0\<close> and then moves to \<open>max (current_page - 2) 0\<close>, otherwise it
  changes nothing.  The main loop answers a left gesture with \<open>next_page\<close> and a right
  gesture with \<open>previous_page\<close>.
\<close>

theorem page_navigation:
  assumes "pages p \<noteq> []" and "current_page p = 0"
  shows "0 \<le> current_page (foldl nav_step p ns) \<and>
         current_page (foldl nav_step p ns) \<le> int (length (pages p)) - 1 \<and>
         fst (next_page q) = (current_page q < int (length (pages q)) - 1) \<and>
         current_page (snd (next_page q)) =
           (if current_page q < int (length (pages q)) - 1
            then min (current_page q + 2) (int (length (pages q)) - 1)
            else current_page q) \<and>
         fst (previous_page q) = (current_page q > 0) \<and>
         current_page (snd (previous_page q)) =
           (if current_page q > 0 then max (current_page q - 2) 0 else current_page q) \<and>
         pages (snd (next_page q)) = pages q \<and>
         pages (snd (previous_page q)) = pages q \<and>
         handle_gesture (Some Left) q = snd (next_page q) \<and>
         handle_gesture (Some Right) q = snd (previous_page q) \<and>
         handle_gesture None q = q"
proof -
  have "0 < length (pages p)" using assms(1) by simp
  then have "0 \<le> current_page p" "current_page p \<le> int (length (pages p)) - 1"
    using assms(2) by simp_all
  from foldl_nav_range [OF this, of ns] show ?thesis
    by (simp add: next_page_def previous_page_def handle_gesture_def)
qed

theorem page_navigation_witness:
  "pages book3 \<noteq> [] \<and> current_page book3 = 0 \<and>
   0 \<le> current_page (foldl nav_step book3 [NextPage, NextPage, PreviousPage]) \<and>
   current_page (foldl nav_step book3 [NextPage, NextPage, PreviousPage]) \<le> 2 \<and>
   fst (next_page book3) \<and> current_page (snd (next_page book3)) = 2 \<and>
   \<not> fst (previous_page book3) \<and>
   current_page (handle_gesture (Some Left) book3) = 2"
  using page_navigation [of book3 "[NextPage, NextPage, PreviousPage]" book3]
  by (simp add: book3_def next_page_def previous_page_def)

section \<open>Priming detector\<close>

text \<open>
  Claim C7.  For every hand observation and optional face observation, the priming test
  of the step is true iff the pose heuristic holds (index fingertip above its middle
  joint by more than 0.05, in the top half of the frame, and above the middle, ring and
  pinky fingertips by more than 0.05 each) or a lip zone is present and the Euclidean
  distance from the index fingertip to the centre of the lip zone (the midpoint of the
  two lip landmarks) is strictly less than the radius 0.08.
\<close>

theorem priming_detector:
  "currently_at_lips hand (lip_region_of faces) \<longleftrightarrow>
     (lm_y (landmark hand 8) < lm_y (landmark hand 6) - 0.05 \<and>
      lm_y (landmark hand 8) < 0.5 \<and>
      lm_y (landmark hand 12) - lm_y (landmark hand 8) > 0.05 \<and>
      lm_y (landmark hand 16) - lm_y (landmark hand 8) > 0.05 \<and>
      lm_y (landmark hand 20) - lm_y (landmark hand 8) > 0.05)
     \<or>
     (\<exists>face rest. faces = face # rest \<and>
        euclidean_distance (lm_x (landmark hand 8), lm_y (landmark hand 8))
             ((lm_x (landmark face 13) + lm_x (landmark face 14)) / 2,
              (lm_y (landmark face 13) + lm_y (landmark face 14)) / 2) < 0.08)"
  by (cases faces)
     (auto simp add: currently_at_lips_def is_finger_lick_pose_def finger_at_lips_def
        lip_region_of_def lip_radius_def Let_def euclidean_distance_def)

text \<open>
  A hand whose index fingertip rests on the lip zone, below the middle of the frame: the
  pose heuristic fails and the proximity heuristic makes the test true.
\<close>

theorem priming_detector_witness:
  "currently_at_lips (mk_hand 0.6 0.3 0.3) (lip_region_of [mk_face]) \<and>
   \<not> is_finger_lick_pose (mk_hand 0.6 0.3 0.3)"
  using priming_detector [of "mk_hand 0.6 0.3 0.3" "[mk_face]"]
  by (simp add: mk_hand_def mk_face_def euclidean_distance_def is_finger_lick_pose_def)

section \<open>Swipe classifier\<close>

lemma steps_by_index: "steps h = map (\<lambda>i. h ! i - h ! (i - 1)) [1 ..< length h]"
  by (rule nth_equalityI) (auto simp add: steps_def nth_tl)

lemma fold_vote_step:
  "fold (vote_step h) xs (r, l) =
     (r + length (filter (\<lambda>i. h ! i - h ! (i - 1) > 0.01) xs),
      l + length (filter (\<lambda>i. h ! i - h ! (i - 1) < - 0.01) xs))"
  by (induction xs arbitrary: r l) (auto simp add: vote_step_def Let_def)

lemma count_votes_spec: "count_votes h = (votes_right h, votes_left h)"
  by (simp add: count_votes_def fold_vote_step votes_right_def votes_left_def
      steps_by_index filter_map comp_def)

text \<open>
  Claim C2.  For finger and thumb histories of equal length at least 5, the classifier
  of the code returns what the specification prescribes: None when either stream has no
  directional vote; otherwise Right iff the net finger displacement exceeds 0.12, the
  finger right-ratio exceeds 0.5 (fast swipe, displacement magnitude above 0.20) or 0.6,
  and both right-ratios exceed 0.5; otherwise Left iff the displacement is below -0.10,
  the finger left-ratio exceeds 0.45 (fast) or 0.55, and both left-ratios exceed 0.45;
  otherwise None.
\<close>

theorem swipe_classifier_refines_spec:
  assumes "5 \<le> length Hf" and "length Ht = length Hf"
  shows "classify_swipe Hf Ht = swipe_classifier_spec Hf Ht"
proof -
  have "Hf \<noteq> []" using assms(1) by auto
  then have "Hf ! 0 = hd Hf" by (simp add: hd_conv_nth)
  then have unfolded: "classify_swipe Hf Ht =
     (if votes_right Hf + votes_left Hf > 0 \<and> votes_right Ht + votes_left Ht > 0 then
        (if net_displacement Hf > 0.12 \<and>
            real (votes_right Hf) / real (votes_right Hf + votes_left Hf) >
              (if \<bar>net_displacement Hf\<bar> > 0.20 then 0.5 else 0.6) \<and>
            real (votes_right Hf) / real (votes_right Hf + votes_left Hf) > 0.5 \<and>
            real (votes_right Ht) / real (votes_right Ht + votes_left Ht) > 0.5
         then Some Right
         else if net_displacement Hf < - 0.10 \<and>
            real (votes_left Hf) / real (votes_right Hf + votes_left Hf) >
              (if \<bar>net_displacement Hf\<bar> > 0.20 then 0.45 else 0.55) \<and>
            real (votes_left Hf) / real (votes_right Hf + votes_left Hf) > 0.45 \<and>
            real (votes_left Ht) / real (votes_right Ht + votes_left Ht) > 0.45
         then Some Left
         else None)
      else None)"
    unfolding classify_swipe_def Let_def count_votes_spec net_displacement_def
      swipe_threshold_left_def swipe_threshold_right_def fast_swipe_threshold_def
      fst_conv snd_conv
    by presburger
  show ?thesis
  proof (cases "votes_right Hf + votes_left Hf > 0 \<and> votes_right Ht + votes_left Ht > 0")
    case True
    then have "\<not> (votes_right Hf + votes_left Hf = 0 \<or> votes_right Ht + votes_left Ht = 0)"
      by linarith
    then show ?thesis
      unfolding unfolded swipe_classifier_spec_def Let_def using True by presburger
  next
    case False
    then have "votes_right Hf + votes_left Hf = 0 \<or> votes_right Ht + votes_left Ht = 0"
      by linarith
    then show ?thesis
      unfolding unfolded swipe_classifier_spec_def Let_def using False by presburger
  qed
qed

theorem swipe_classifier_refines_spec_witness:
  "5 \<le> length [0.30, 0.33, 0.36, 0.40, 0.45 :: real] \<and>
   length [0.52, 0.54, 0.57, 0.60, 0.63 :: real] =
     length [0.30, 0.33, 0.36, 0.40, 0.45 :: real] \<and>
   swipe_classifier_spec [0.30, 0.33, 0.36, 0.40, 0.45] [0.52, 0.54, 0.57, 0.60, 0.63] =
     Some Right \<and>
   classify_swipe [0.30, 0.33, 0.36, 0.40, 0.45] [0.52, 0.54, 0.57, 0.60, 0.63] =
     Some Right"
  using swipe_classifier_refines_spec
    [of "[0.30, 0.33, 0.36, 0.40, 0.45]" "[0.52, 0.54, 0.57, 0.60, 0.63]"]
  by (simp add: swipe_classifier_spec_def net_displacement_def votes_right_def
      votes_left_def steps_def)

section \<open>The per-frame step\<close>

subsection \<open>Unfolding the step\<close>

lemma detect_no_hand:
  "multi_hand_landmarks f = [] \<Longrightarrow>
   detect_gesture_with cls s f =
     (None, (expire_lick (current_time f) s)\<lparr> gesture_started := False, start_x := None \<rparr>)"
  by (simp add: detect_gesture_with_def)

lemma detect_one_hand:
  "multi_hand_landmarks f = [hand] \<Longrightarrow>
   detect_gesture_with cls s f =
     process_hand_with cls (current_time f) (lip_region_of (multi_face_landmarks f)) hand
       (None, expire_lick (current_time f) s)"
  by (simp add: detect_gesture_with_def Let_def)

lemma expire_lick_fields [simp]:
  "position_history (expire_lick t s) = position_history s"
  "thumb_history (expire_lick t s) = thumb_history s"
  "movement_frames (expire_lick t s) = movement_frames s"
  "gesture_started (expire_lick t s) = gesture_started s"
  "last_gesture_time (expire_lick t s) = last_gesture_time s"
  "lick_time (expire_lick t s) = lick_time s"
  by (simp_all add: expire_lick_def)

lemma expire_lick_unprimed [simp]: "\<not> finger_licked s \<Longrightarrow> expire_lick t s = s"
  by (simp add: expire_lick_def)

lemma update_lick_away [simp]:
  "finger_licked (update_lick t False s) = finger_licked s"
  "last_gesture_time (update_lick t False s) = last_gesture_time s"
  "lick_time (update_lick t False s) = lick_time s"
  "gesture_started (update_lick t False s) = gesture_started s"
  "movement_frames (update_lick t False s) = movement_frames s"
  "position_history (update_lick t False s) = position_history s"
  "thumb_history (update_lick t False s) = thumb_history s"
  by (simp_all add: update_lick_def)

lemma update_lick_touch [simp]:
  "finger_licked (update_lick t True s)"
  "gesture_started (update_lick t True s) = gesture_started s"
  "movement_frames (update_lick t True s) = movement_frames s"
  "position_history (update_lick t True s) = position_history s"
  "thumb_history (update_lick t True s) = thumb_history s"
  by (simp_all add: update_lick_def Let_def)

lemma reset_tracking_fields [simp]:
  "position_history (reset_tracking s) = []"
  "thumb_history (reset_tracking s) = []"
  "\<not> gesture_started (reset_tracking s)"
  "finger_licked (reset_tracking s) = finger_licked s"
  "lick_time (reset_tracking s) = lick_time s"
  "last_gesture_time (reset_tracking s) = last_gesture_time s"
  "movement_frames (reset_tracking s) = movement_frames s"
  by (simp_all add: reset_tracking_def)

lemma process_hand_at_lips:
  "currently_at_lips hand region \<Longrightarrow>
   process_hand_with cls t region hand gs =
     (fst gs, reset_tracking (update_lick t True (snd gs)))"
  by (simp add: process_hand_with_def Let_def)

lemma process_hand_tracking:
  "\<not> currently_at_lips hand region \<Longrightarrow> finger_licked (snd gs) \<Longrightarrow>
   process_hand_with cls t region hand gs =
     track_swipe_with cls t (lm_x (landmark hand 12)) (lm_x (landmark hand 4))
       (fst gs, update_lick t False (snd gs))"
  by (simp add: process_hand_with_def Let_def)

lemma process_hand_idle:
  "\<not> currently_at_lips hand region \<Longrightarrow> \<not> finger_licked (snd gs) \<Longrightarrow>
   process_hand_with cls t region hand gs = (fst gs, reset_tracking (snd gs))"
  by (simp add: process_hand_with_def Let_def update_lick_def)

lemma process_hand_branches:
  "process_hand_with cls t region hand gs =
     (if currently_at_lips hand region
      then (fst gs, reset_tracking (update_lick t True (snd gs)))
      else if finger_licked (snd gs)
      then track_swipe_with cls t (lm_x (landmark hand 12)) (lm_x (landmark hand 4))
             (fst gs, update_lick t False (snd gs))
      else (fst gs, reset_tracking (snd gs)))"
  by (simp add: process_hand_at_lips process_hand_tracking process_hand_idle)

subsection \<open>A frame without a hand\<close>

text \<open>
  The branch for a frame without a hand resets \<open>gesture_started\<close> and \<open>start_x\<close>
  only; unlike the other places that reset the tracking, it does not touch the two
  histories.
\<close>

lemma no_hand_keeps_histories:
  assumes "multi_hand_landmarks f = []"
  shows "position_history (snd (detect_gesture s f)) = position_history s \<and>
         thumb_history (snd (detect_gesture s f)) = thumb_history s"
  using assms by (simp add: detect_gesture_def detect_no_hand)

text \<open>
  Claim C3, as amended.  For every step input without a hand observation the step
  returns None, leaves the priming timestamp unchanged, leaves \<open>finger_licked\<close>
  unchanged unless the priming timeout has run out at this step (in which case it
  becomes false), and resets the tracking-started flag and the start position.
\<close>

theorem no_hand_step:
  assumes "multi_hand_landmarks f = []"
  shows "fst (detect_gesture s f) = None \<and>
         lick_time (snd (detect_gesture s f)) = lick_time s \<and>
         finger_licked (snd (detect_gesture s f)) =
           (finger_licked s \<and> \<not> current_time f - lick_time s > lick_timeout) \<and>
         \<not> gesture_started (snd (detect_gesture s f)) \<and>
         start_x (snd (detect_gesture s f)) = None"
  using assms by (auto simp add: detect_gesture_def detect_no_hand expire_lick_def)

theorem no_hand_step_witness:
  "multi_hand_landmarks (no_hand_frame 101) = [] \<and>
   fst (detect_gesture (run init [lick_frame 100]) (no_hand_frame 101)) = None \<and>
   finger_licked (snd (detect_gesture (run init [lick_frame 100]) (no_hand_frame 101))) \<and>
   lick_time (snd (detect_gesture (run init [lick_frame 100]) (no_hand_frame 101))) = 100 \<and>
   \<not> gesture_started (snd (detect_gesture (run init [lick_frame 100]) (no_hand_frame 101)))"
proof -
  have s: "finger_licked (run init [lick_frame 100]) \<and> lick_time (run init [lick_frame 100]) = 100"
    by code_simp
  have h: "multi_hand_landmarks (no_hand_frame 101) = []" by (simp add: no_hand_frame_def)
  have t: "current_time (no_hand_frame 101) = 101" by (simp add: no_hand_frame_def)
  show ?thesis
    using no_hand_step [OF h, of "run init [lick_frame 100]"] s h t
    by (simp add: lick_timeout_def)
qed

text \<open>
  The claim as stated in C3 fails: in the run below priming is active before the
  step, the frame at time 106 carries no hand, and the step clears \<open>finger_licked\<close>
  (the timeout has run out) and leaves both histories non-empty.
\<close>

theorem no_hand_step_counterexample:
  "multi_hand_landmarks (no_hand_frame 106) = [] \<and>
   finger_licked (run init [lick_frame 100, sweep_frame 100.1 0.30]) \<and>
   \<not> finger_licked (snd (detect_gesture (run init [lick_frame 100, sweep_frame 100.1 0.30])
                          (no_hand_frame 106))) \<and>
   position_history (snd (detect_gesture (run init [lick_frame 100, sweep_frame 100.1 0.30])
                          (no_hand_frame 106))) = [0.30] \<and>
   thumb_history (snd (detect_gesture (run init [lick_frame 100, sweep_frame 100.1 0.30])
                          (no_hand_frame 106))) = [0.30]"
  by code_simp

subsection \<open>A frame showing the priming pose\<close>

text \<open>
  Claim C4.  Consider a step whose hand shows the priming pose.  Priming counts as
  already active when \<open>finger_licked\<close> is set and has not timed out at this step, which
  is what the code tests after its expiry check.  If priming is not already active, the
  step sets it, records the current time as the priming timestamp and sets
  \<open>last_gesture_time\<close> to 0; if it is already active, the timestamp and
  \<open>last_gesture_time\<close> are unchanged.  In both cases there is no swipe tracking: no
  event, nothing is appended to the histories (they are emptied), the tracking flag is
  off and the frame counter is unchanged.
\<close>

theorem priming_step:
  assumes "multi_hand_landmarks f = [hand]"
      and "currently_at_lips hand (lip_region_of (multi_face_landmarks f))"
  shows "(\<not> (finger_licked s \<and> \<not> current_time f - lick_time s > lick_timeout) \<longrightarrow>
            finger_licked (snd (detect_gesture s f)) \<and>
            lick_time (snd (detect_gesture s f)) = current_time f \<and>
            last_gesture_time (snd (detect_gesture s f)) = 0) \<and>
         (finger_licked s \<and> \<not> current_time f - lick_time s > lick_timeout \<longrightarrow>
            finger_licked (snd (detect_gesture s f)) \<and>
            lick_time (snd (detect_gesture s f)) = lick_time s \<and>
            last_gesture_time (snd (detect_gesture s f)) = last_gesture_time s) \<and>
         fst (detect_gesture s f) = None \<and>
         \<not> gesture_started (snd (detect_gesture s f)) \<and>
         movement_frames (snd (detect_gesture s f)) = movement_frames s \<and>
         position_history (snd (detect_gesture s f)) = [] \<and>
         thumb_history (snd (detect_gesture s f)) = []"
  using assms
  by (simp add: detect_gesture_def detect_one_hand process_hand_at_lips update_lick_def
      expire_lick_def Let_def)

theorem priming_step_witness:
  "multi_hand_landmarks (lick_frame 100) = [mk_hand 0.2 0.3 0.3] \<and>
   currently_at_lips (mk_hand 0.2 0.3 0.3) (lip_region_of (multi_face_landmarks (lick_frame 100))) \<and>
   \<not> finger_licked init \<and>
   finger_licked (snd (detect_gesture init (lick_frame 100))) \<and>
   lick_time (snd (detect_gesture init (lick_frame 100))) = 100 \<and>
   last_gesture_time (snd (detect_gesture init (lick_frame 100))) = 0 \<and>
   fst (detect_gesture init (lick_frame 100)) = None \<and>
   position_history (snd (detect_gesture init (lick_frame 100))) = [] \<and>
   multi_hand_landmarks (lick_frame 101) = [mk_hand 0.2 0.3 0.3] \<and>
   finger_licked (run init [lick_frame 100]) \<and>
   \<not> current_time (lick_frame 101) - lick_time (run init [lick_frame 100]) > lick_timeout \<and>
   lick_time (snd (detect_gesture (run init [lick_frame 100]) (lick_frame 101))) = 100 \<and>
   last_gesture_time (snd (detect_gesture (run init [lick_frame 100]) (lick_frame 101))) =
     last_gesture_time (run init [lick_frame 100])"
proof -
  have h': "multi_hand_landmarks (lick_frame 101) = [mk_hand 0.2 0.3 0.3]"
    by (simp add: lick_frame_def)
  have p': "currently_at_lips (mk_hand 0.2 0.3 0.3)
             (lip_region_of (multi_face_landmarks (lick_frame 101)))"
    by code_simp
  have s': "finger_licked (run init [lick_frame 100]) \<and>
            lick_time (run init [lick_frame 100]) = 100"
    by code_simp
  have t': "current_time (lick_frame 101) = 101" by (simp add: lick_frame_def)
  have h: "multi_hand_landmarks (lick_frame 100) = [mk_hand 0.2 0.3 0.3]"
    by (simp add: lick_frame_def)
  have p: "currently_at_lips (mk_hand 0.2 0.3 0.3)
             (lip_region_of (multi_face_landmarks (lick_frame 100)))"
    by code_simp
  have t: "current_time (lick_frame 100) = 100" by (simp add: lick_frame_def)
  have i: "\<not> finger_licked init" by (simp add: init_def)
  show ?thesis
    using priming_step [OF h p, of init] priming_step [OF h' p', of "run init [lick_frame 100]"]
      h p t i h' s' t'
    by (simp add: lick_timeout_def)
qed

subsection \<open>A step that emits a swipe\<close>

lemma track_swipe_emits:
  assumes "fst (track_swipe_with cls t cx tx (None, s)) = Some d"
  shows "last_gesture_time (snd (track_swipe_with cls t cx tx (None, s))) = t \<and>
         \<not> gesture_started (snd (track_swipe_with cls t cx tx (None, s))) \<and>
         \<not> finger_licked (snd (track_swipe_with cls t cx tx (None, s))) \<and>
         position_history (snd (track_swipe_with cls t cx tx (None, s))) = [] \<and>
         thumb_history (snd (track_swipe_with cls t cx tx (None, s))) = []"
  using assms
  by (auto simp add: track_swipe_with_def reset_tracking_def emit_swipe_def Let_def
      split: if_splits option.splits)

lemma process_hand_emits:
  assumes "fst (process_hand_with cls t region hand (None, s)) = Some d"
  shows "last_gesture_time (snd (process_hand_with cls t region hand (None, s))) = t \<and>
         \<not> gesture_started (snd (process_hand_with cls t region hand (None, s))) \<and>
         \<not> finger_licked (snd (process_hand_with cls t region hand (None, s))) \<and>
         position_history (snd (process_hand_with cls t region hand (None, s))) = [] \<and>
         thumb_history (snd (process_hand_with cls t region hand (None, s))) = []"
proof -
  consider (touch) "currently_at_lips hand region"
    | (track) "\<not> currently_at_lips hand region" "finger_licked s"
    | (idle) "\<not> currently_at_lips hand region" "\<not> finger_licked s"
    by blast
  then show ?thesis
  proof cases
    case touch
    with assms show ?thesis by (simp add: process_hand_at_lips)
  next
    case track
    then have eq: "process_hand_with cls t region hand (None, s) =
        track_swipe_with cls t (lm_x (landmark hand 12)) (lm_x (landmark hand 4))
          (None, update_lick t False s)"
      by (simp add: process_hand_tracking)
    show ?thesis using assms track_swipe_emits unfolding eq by blast
  next
    case idle
    with assms show ?thesis by (simp add: process_hand_idle)
  qed
qed

lemma detect_emits:
  assumes "length (multi_hand_landmarks f) \<le> 1"
      and "fst (detect_gesture_with cls s f) = Some d"
  shows "last_gesture_time (snd (detect_gesture_with cls s f)) = current_time f \<and>
         \<not> gesture_started (snd (detect_gesture_with cls s f)) \<and>
         \<not> finger_licked (snd (detect_gesture_with cls s f)) \<and>
         position_history (snd (detect_gesture_with cls s f)) = [] \<and>
         thumb_history (snd (detect_gesture_with cls s f)) = []"
proof (cases "multi_hand_landmarks f")
  case Nil
  with assms(2) show ?thesis by (simp add: detect_no_hand)
next
  case (Cons hand rest)
  with assms(1) have one: "multi_hand_landmarks f = [hand]" by simp
  show ?thesis
    using assms(2) process_hand_emits unfolding detect_one_hand [OF one] by blast
qed

text \<open>
  Claim C6.  Every step that emits a swipe event sets \<open>last_gesture_time\<close> to the
  current time, clears the tracking-started flag, clears \<open>finger_licked\<close> and empties
  both histories.  The hand tracker is created with \<open>max_num_hands=1\<close>, so a frame
  carries at most one hand.
\<close>

theorem emitting_step:
  assumes "length (multi_hand_landmarks f) \<le> 1"
      and "fst (detect_gesture s f) = Some d"
  shows "last_gesture_time (snd (detect_gesture s f)) = current_time f \<and>
         \<not> gesture_started (snd (detect_gesture s f)) \<and>
         \<not> finger_licked (snd (detect_gesture s f)) \<and>
         position_history (snd (detect_gesture s f)) = [] \<and>
         thumb_history (snd (detect_gesture s f)) = []"
  using assms detect_emits unfolding detect_gesture_def by blast

theorem emitting_step_witness:
  "length (multi_hand_landmarks (sweep_frame 100.5 0.45)) \<le> 1 \<and>
   fst (detect_gesture (run init primed_sweep) (sweep_frame 100.5 0.45)) = Some Right \<and>
   finger_licked (run init primed_sweep) \<and>
   length (position_history (run init primed_sweep)) = 4 \<and>
   last_gesture_time (snd (detect_gesture (run init primed_sweep) (sweep_frame 100.5 0.45))) =
     100.5 \<and>
   \<not> gesture_started (snd (detect_gesture (run init primed_sweep) (sweep_frame 100.5 0.45))) \<and>
   \<not> finger_licked (snd (detect_gesture (run init primed_sweep) (sweep_frame 100.5 0.45))) \<and>
   position_history (snd (detect_gesture (run init primed_sweep) (sweep_frame 100.5 0.45))) = [] \<and>
   thumb_history (snd (detect_gesture (run init primed_sweep) (sweep_frame 100.5 0.45))) = []"
proof -
  have h: "length (multi_hand_landmarks (sweep_frame 100.5 0.45)) \<le> 1"
    by (simp add: sweep_frame_def)
  have e: "fst (detect_gesture (run init primed_sweep) (sweep_frame 100.5 0.45)) = Some Right"
    by code_simp
  have b: "finger_licked (run init primed_sweep) \<and>
           length (position_history (run init primed_sweep)) = 4"
    by code_simp
  have t: "current_time (sweep_frame 100.5 0.45) = 100.5" by (simp add: sweep_frame_def)
  show ?thesis using emitting_step [OF h e] h e b t by simp
qed

section \<open>Invariants of the position histories\<close>

lemma push_history_length: "length (push_history v h) = min (length h + 1) (max history_size (length h))"
  by (simp add: push_history_def Let_def)

lemma track_swipe_lengths:
  assumes "length (position_history (snd gs)) = length (thumb_history (snd gs))"
  shows "length (position_history (snd (track_swipe_with cls t cx tx gs))) =
         length (thumb_history (snd (track_swipe_with cls t cx tx gs)))"
  using assms
  by (auto simp add: track_swipe_with_def reset_tracking_def emit_swipe_def Let_def
      push_history_length split: option.splits)

lemma track_swipe_bound:
  assumes "length (position_history (snd gs)) \<le> history_size \<and>
           length (thumb_history (snd gs)) \<le> history_size"
  shows "length (position_history (snd (track_swipe_with cls t cx tx gs))) \<le> history_size \<and>
         length (thumb_history (snd (track_swipe_with cls t cx tx gs))) \<le> history_size"
  using assms
  by (auto simp add: track_swipe_with_def reset_tracking_def emit_swipe_def Let_def
      push_history_length split: option.splits)

lemma process_hand_lengths:
  assumes "length (position_history (snd gs)) = length (thumb_history (snd gs))"
  shows "length (position_history (snd (process_hand_with cls t region hand gs))) =
         length (thumb_history (snd (process_hand_with cls t region hand gs)))"
  using assms track_swipe_lengths [of "(fst gs, update_lick t False (snd gs))"]
  by (simp add: process_hand_branches)

lemma process_hand_bound:
  assumes "length (position_history (snd gs)) \<le> history_size \<and>
           length (thumb_history (snd gs)) \<le> history_size"
  shows "length (position_history (snd (process_hand_with cls t region hand gs))) \<le> history_size \<and>
         length (thumb_history (snd (process_hand_with cls t region hand gs))) \<le> history_size"
  using assms track_swipe_bound [of "(fst gs, update_lick t False (snd gs))"]
  by (simp add: process_hand_branches)

lemma fold_hands_lengths:
  assumes "length (position_history (snd gs)) = length (thumb_history (snd gs))"
  shows "length (position_history (snd (fold (process_hand_with cls t region) hands gs))) =
         length (thumb_history (snd (fold (process_hand_with cls t region) hands gs)))"
  using assms
proof (induction hands arbitrary: gs)
  case Nil
  then show ?case by simp
next
  case (Cons hand hands)
  show ?case using Cons.IH [OF process_hand_lengths [OF Cons.prems]] by simp
qed

lemma fold_hands_bound:
  assumes "length (position_history (snd gs)) \<le> history_size \<and>
           length (thumb_history (snd gs)) \<le> history_size"
  shows "length (position_history (snd (fold (process_hand_with cls t region) hands gs))) \<le> history_size \<and>
         length (thumb_history (snd (fold (process_hand_with cls t region) hands gs))) \<le> history_size"
  using assms
proof (induction hands arbitrary: gs)
  case Nil
  then show ?case by simp
next
  case (Cons hand hands)
  show ?case using Cons.IH [OF process_hand_bound [OF Cons.prems]] by simp
qed

lemma detect_lengths:
  assumes "length (position_history s) = length (thumb_history s)"
  shows "length (position_history (snd (detect_gesture_with cls s f))) =
         length (thumb_history (snd (detect_gesture_with cls s f)))"
proof (cases "multi_hand_landmarks f = []")
  case True
  then show ?thesis using assms by (simp add: detect_no_hand)
next
  case False
  then show ?thesis
    using assms
      fold_hands_lengths [of "(None, expire_lick (current_time f) s)" cls "current_time f"
        "lip_region_of (multi_face_landmarks f)" "multi_hand_landmarks f"]
    by (simp add: detect_gesture_with_def Let_def)
qed

lemma detect_bound:
  assumes "length (position_history s) \<le> history_size \<and> length (thumb_history s) \<le> history_size"
  shows "length (position_history (snd (detect_gesture_with cls s f))) \<le> history_size \<and>
         length (thumb_history (snd (detect_gesture_with cls s f))) \<le> history_size"
proof (cases "multi_hand_landmarks f = []")
  case True
  then show ?thesis using assms by (simp add: detect_no_hand)
next
  case False
  then show ?thesis
    using assms
      fold_hands_bound [of "(None, expire_lick (current_time f) s)" cls "current_time f"
        "lip_region_of (multi_face_landmarks f)" "multi_hand_landmarks f"]
    by (simp add: detect_gesture_with_def Let_def)
qed

lemma apply_call_lengths:
  assumes "length (position_history s) = length (thumb_history s)"
  shows "length (position_history (apply_call s c)) = length (thumb_history (apply_call s c))"
  using assms detect_lengths by (cases c) (simp_all add: detect_gesture_def reset_def)

lemma apply_call_bound:
  assumes "length (position_history s) \<le> history_size \<and> length (thumb_history s) \<le> history_size"
  shows "length (position_history (apply_call s c)) \<le> history_size \<and>
         length (thumb_history (apply_call s c)) \<le> history_size"
  using assms detect_bound by (cases c) (simp_all add: detect_gesture_def reset_def)

lemma exec_lengths:
  assumes "length (position_history s) = length (thumb_history s)"
  shows "length (position_history (exec s cs)) = length (thumb_history (exec s cs))"
  using assms unfolding exec_def
proof (induction cs arbitrary: s)
  case Nil
  then show ?case by simp
next
  case (Cons c cs)
  show ?case using Cons.IH [OF apply_call_lengths [OF Cons.prems]] by simp
qed

lemma exec_bound:
  assumes "length (position_history s) \<le> history_size \<and> length (thumb_history s) \<le> history_size"
  shows "length (position_history (exec s cs)) \<le> history_size \<and>
         length (thumb_history (exec s cs)) \<le> history_size"
  using assms unfolding exec_def
proof (induction cs arbitrary: s)
  case Nil
  then show ?case by simp
next
  case (Cons c cs)
  show ?case using Cons.IH [OF apply_call_bound [OF Cons.prems]] by simp
qed

text \<open>
  Claim C9.  The finger history and the thumb history always have the same length: a
  step of \<open>detect_gesture\<close> and a call of \<open>reset\<close> preserve the equality from any
  state, hence it holds after every sequence of calls, from any such state and from the
  initial one.
\<close>

theorem histories_same_length:
  assumes "length (position_history s) = length (thumb_history s)"
  shows "length (position_history (snd (detect_gesture s f))) =
           length (thumb_history (snd (detect_gesture s f))) \<and>
         length (position_history (reset s)) = length (thumb_history (reset s)) \<and>
         length (position_history (exec s cs)) = length (thumb_history (exec s cs)) \<and>
         length (position_history (exec init cs)) = length (thumb_history (exec init cs))"
proof -
  have "length (position_history init) = length (thumb_history init)"
    by (simp add: init_def)
  then show ?thesis
    using assms detect_lengths [OF assms] exec_lengths
    by (simp add: detect_gesture_def reset_def)
qed

theorem histories_same_length_witness:
  "length (position_history (run init primed_sweep)) =
     length (thumb_history (run init primed_sweep)) \<and>
   length (position_history (run init primed_sweep)) = 4 \<and>
   length (position_history (snd (detect_gesture (run init primed_sweep) (no_hand_frame 100.5)))) =
     length (thumb_history (snd (detect_gesture (run init primed_sweep) (no_hand_frame 100.5)))) \<and>
   length (position_history (exec (run init primed_sweep) static_run)) =
     length (thumb_history (exec (run init primed_sweep) static_run)) \<and>
   length (position_history (exec init static_run)) =
     length (thumb_history (exec init static_run))"
proof -
  have h: "length (position_history (run init primed_sweep)) =
           length (thumb_history (run init primed_sweep))"
    by code_simp
  have n: "length (position_history (run init primed_sweep)) = 4" by code_simp
  show ?thesis
    using histories_same_length [OF h, of "no_hand_frame 100.5" static_run] h n by simp
qed

subsection \<open>Where the classifier is consulted\<close>

lemma track_swipe_guard:
  assumes "\<not> (min_frames \<le> movement_frames (snd gs) + 1 \<and>
              5 \<le> length (push_history cx (position_history (snd gs))) \<and>
              5 \<le> length (push_history tx (thumb_history (snd gs))))"
  shows "track_swipe_with cls t cx tx gs = track_swipe_with cls' t cx tx gs"
  using assms by (auto simp add: track_swipe_with_def Let_def)

lemma detect_guard:
  assumes "multi_hand_landmarks f = [hand]"
      and "\<not> (min_frames \<le> movement_frames s + 1 \<and>
              5 \<le> length (push_history (lm_x (landmark hand 12)) (position_history s)) \<and>
              5 \<le> length (push_history (lm_x (landmark hand 4)) (thumb_history s)))"
  shows "detect_gesture_with cls s f = detect_gesture_with cls' s f"
proof -
  let ?t = "current_time f" and ?r = "lip_region_of (multi_face_landmarks f)"
  let ?gs = "(None :: gesture option, expire_lick ?t s)"
  consider (touch) "currently_at_lips hand ?r"
    | (track) "\<not> currently_at_lips hand ?r" "finger_licked (snd ?gs)"
    | (idle) "\<not> currently_at_lips hand ?r" "\<not> finger_licked (snd ?gs)"
    by blast
  then have "process_hand_with cls ?t ?r hand ?gs = process_hand_with cls' ?t ?r hand ?gs"
  proof cases
    case touch
    then show ?thesis by (simp add: process_hand_at_lips)
  next
    case track
    show ?thesis
      unfolding process_hand_tracking [OF track]
      by (rule track_swipe_guard) (use assms(2) in simp)
  next
    case idle
    then show ?thesis by (simp add: process_hand_idle)
  qed
  then show ?thesis by (simp add: detect_one_hand [OF assms(1)])
qed

text \<open>
  Claim C8.  In every state reachable from the initial one by steps and resets, each
  history holds at most 15 samples.  The classifier is consulted only in a step whose
  frame counter (after its increment) is at least \<open>min_frames\<close> and whose histories
  (after the new sample) hold at least 5 samples each: in every other step the outcome
  is the same whichever classifier is plugged in.
\<close>

theorem history_capacity_and_classifier_guard:
  "length (position_history (exec init cs)) \<le> 15 \<and>
   length (thumb_history (exec init cs)) \<le> 15 \<and>
   (multi_hand_landmarks f = [hand] \<and>
    \<not> (min_frames \<le> movement_frames s + 1 \<and>
       5 \<le> length (push_history (lm_x (landmark hand 12)) (position_history s)) \<and>
       5 \<le> length (push_history (lm_x (landmark hand 4)) (thumb_history s)))
    \<longrightarrow> detect_gesture_with cls s f = detect_gesture_with cls' s f)"
proof -
  have "length (position_history init) \<le> history_size \<and>
        length (thumb_history init) \<le> history_size"
    by (simp add: init_def)
  from exec_bound [OF this, of cs] show ?thesis
    using detect_guard by (auto simp add: history_size_def)
qed

theorem history_capacity_and_classifier_guard_witness:
  "length (position_history (exec init static_run)) = 15 \<and>
   length (position_history (exec init static_run)) \<le> 15 \<and>
   length (thumb_history (exec init static_run)) \<le> 15 \<and>
   multi_hand_landmarks (sweep_frame 100.2 0.33) = [mk_hand 0.6 0.33 0.33] \<and>
   movement_frames (run init [lick_frame 100, sweep_frame 100.1 0.30]) + 1 < min_frames \<and>
   detect_gesture_with classify_swipe (run init [lick_frame 100, sweep_frame 100.1 0.30])
       (sweep_frame 100.2 0.33) =
     detect_gesture_with (\<lambda>pos_hist th_hist. Some Right)
       (run init [lick_frame 100, sweep_frame 100.1 0.30]) (sweep_frame 100.2 0.33)"
proof -
  have full: "length (position_history (exec init static_run)) = 15" by code_simp
  have h: "multi_hand_landmarks (sweep_frame 100.2 0.33) = [mk_hand 0.6 0.33 0.33]"
    by (simp add: sweep_frame_def)
  have m: "movement_frames (run init [lick_frame 100, sweep_frame 100.1 0.30]) + 1 < min_frames"
    by code_simp
  show ?thesis
    using history_capacity_and_classifier_guard
      [of static_run "sweep_frame 100.2 0.33" "mk_hand 0.6 0.33 0.33"
          "run init [lick_frame 100, sweep_frame 100.1 0.30]"
          classify_swipe "\<lambda>pos_hist th_hist. Some Right"]
      full h m
    by simp
qed

section \<open>Priming timeout\<close>

lemma track_swipe_quiet:
  assumes "fst (track_swipe_with cls t cx tx gs) = None"
  shows "fst gs = None \<and>
         finger_licked (snd (track_swipe_with cls t cx tx gs)) = finger_licked (snd gs) \<and>
         lick_time (snd (track_swipe_with cls t cx tx gs)) = lick_time (snd gs)"
  using assms
  by (auto simp add: track_swipe_with_def Let_def emit_swipe_def
      split: if_splits option.splits)

lemma process_hand_quiet:
  assumes "fst (process_hand_with cls t region hand gs) = None"
      and "finger_licked (snd gs)"
  shows "fst gs = None \<and>
         finger_licked (snd (process_hand_with cls t region hand gs)) \<and>
         lick_time (snd (process_hand_with cls t region hand gs)) = lick_time (snd gs)"
proof (cases "currently_at_lips hand region")
  case True
  then show ?thesis using assms by (simp add: process_hand_branches update_lick_def Let_def)
next
  case False
  then have eq: "process_hand_with cls t region hand gs =
      track_swipe_with cls t (lm_x (landmark hand 12)) (lm_x (landmark hand 4))
        (fst gs, update_lick t False (snd gs))"
    using assms(2) by (simp add: process_hand_branches)
  from assms(1) have "fst (track_swipe_with cls t (lm_x (landmark hand 12))
      (lm_x (landmark hand 4)) (fst gs, update_lick t False (snd gs))) = None"
    unfolding eq .
  from track_swipe_quiet [OF this] show ?thesis
    unfolding eq using assms(2) by (cases gs) auto
qed

lemma process_hand_gesture_kept:
  "fst gs \<noteq> None \<Longrightarrow> fst (process_hand_with cls t region hand gs) \<noteq> None"
  by (auto simp add: process_hand_branches track_swipe_with_def Let_def split: option.splits)

lemma fold_hands_gesture_kept:
  "fst gs \<noteq> None \<Longrightarrow> fst (fold (process_hand_with cls t region) hands gs) \<noteq> None"
proof (induction hands arbitrary: gs)
  case Nil
  then show ?case by simp
next
  case (Cons hand hands)
  show ?case using Cons.IH [OF process_hand_gesture_kept [OF Cons.prems]] by simp
qed

lemma fold_hands_quiet:
  assumes "fst (fold (process_hand_with cls t region) hands gs) = None"
      and "finger_licked (snd gs)"
  shows "finger_licked (snd (fold (process_hand_with cls t region) hands gs)) \<and>
         lick_time (snd (fold (process_hand_with cls t region) hands gs)) = lick_time (snd gs)"
  using assms
proof (induction hands arbitrary: gs)
  case Nil
  then show ?case by simp
next
  case (Cons hand hands)
  let ?gs' = "process_hand_with cls t region hand gs"
  have tail: "fst (fold (process_hand_with cls t region) hands ?gs') = None"
    using Cons.prems(1) by simp
  then have "fst ?gs' = None" using fold_hands_gesture_kept by blast
  from process_hand_quiet [OF this Cons.prems(2)]
  have step: "finger_licked (snd ?gs')" "lick_time (snd ?gs') = lick_time (snd gs)"
    by simp_all
  from Cons.IH [OF tail step(1)] step(2) show ?case by simp
qed

lemma detect_quiet:
  assumes "finger_licked s"
      and "current_time f \<le> lick_time s + lick_timeout"
      and "fst (detect_gesture s f) = None"
  shows "finger_licked (snd (detect_gesture s f)) \<and>
         lick_time (snd (detect_gesture s f)) = lick_time s"
proof -
  have keep: "expire_lick (current_time f) s = s"
    using assms(2) by (simp add: expire_lick_def)
  show ?thesis
  proof (cases "multi_hand_landmarks f = []")
    case True
    then show ?thesis using assms(1) keep by (simp add: detect_gesture_def detect_no_hand)
  next
    case False
    then have eq: "detect_gesture s f =
        fold (process_hand_with classify_swipe (current_time f)
               (lip_region_of (multi_face_landmarks f))) (multi_hand_landmarks f) (None, s)"
      using keep by (simp add: detect_gesture_def detect_gesture_with_def Let_def)
    show ?thesis
      using fold_hands_quiet [of classify_swipe "current_time f"
          "lip_region_of (multi_face_landmarks f)" "multi_hand_landmarks f" "(None, s)"]
        assms(1,3)
      unfolding eq by simp
  qed
qed

lemma run_quiet:
  assumes "finger_licked s"
      and "\<forall>f \<in> set fs. current_time f \<le> lick_time s + lick_timeout"
      and "\<forall>g \<in> set (gestures_of s fs). g = None"
  shows "finger_licked (run s fs) \<and> lick_time (run s fs) = lick_time s"
  using assms
proof (induction fs arbitrary: s)
  case Nil
  then show ?case by simp
next
  case (Cons f fs)
  have "finger_licked (snd (detect_gesture s f)) \<and>
        lick_time (snd (detect_gesture s f)) = lick_time s"
    using Cons.prems by (intro detect_quiet) simp_all
  then show ?case using Cons.IH [of "snd (detect_gesture s f)"] Cons.prems by simp
qed

lemma detect_after_expiry:
  assumes "finger_licked s" and "current_time f > lick_time s + lick_timeout"
  shows "expire_lick (current_time f) s = s\<lparr> finger_licked := False \<rparr> \<and>
         detect_gesture s f = detect_gesture (s\<lparr> finger_licked := False \<rparr>) f"
  using assms by (simp add: detect_gesture_def detect_gesture_with_def expire_lick_def Let_def)

text \<open>
  Claim C5, as amended.  If priming is active with timestamp \<open>t0\<close>, the following
  steps are evaluated no later than \<open>t0 + lick_timeout\<close> and emit no swipe, then priming
  is still active afterwards, and the first step evaluated strictly after
  \<open>t0 + lick_timeout\<close> clears it before anything else: the expiry check yields a state
  with \<open>finger_licked\<close> false and the whole step behaves as if started from the state
  with \<open>finger_licked\<close> already false.
\<close>

theorem priming_expires:
  assumes "finger_licked s" and "lick_time s = t0"
      and "\<forall>f' \<in> set fs. current_time f' \<le> t0 + lick_timeout"
      and "\<forall>g \<in> set (gestures_of s fs). g = None"
      and "current_time f > t0 + lick_timeout"
  shows "finger_licked (run s fs) \<and>
         \<not> finger_licked (expire_lick (current_time f) (run s fs)) \<and>
         detect_gesture (run s fs) f =
           detect_gesture ((run s fs)\<lparr> finger_licked := False \<rparr>) f"
proof -
  have "finger_licked (run s fs) \<and> lick_time (run s fs) = t0"
    using run_quiet [of s fs] assms(1-4) by simp
  then show ?thesis using detect_after_expiry [of "run s fs" f] assms(5) by simp
qed

theorem priming_expires_witness:
  "finger_licked (run init [lick_frame 100]) \<and>
   lick_time (run init [lick_frame 100]) = 100 \<and>
   list_all (\<lambda>f'. current_time f' \<le> 100 + lick_timeout)
     [sweep_frame 100.1 0.30, no_hand_frame 105] \<and>
   gestures_of (run init [lick_frame 100]) [sweep_frame 100.1 0.30, no_hand_frame 105] =
     [None, None] \<and>
   current_time (sweep_frame 105.1 0.33) > 100 + lick_timeout \<and>
   finger_licked (run (run init [lick_frame 100]) [sweep_frame 100.1 0.30, no_hand_frame 105]) \<and>
   \<not> finger_licked (expire_lick (current_time (sweep_frame 105.1 0.33))
        (run (run init [lick_frame 100]) [sweep_frame 100.1 0.30, no_hand_frame 105])) \<and>
   detect_gesture
       (run (run init [lick_frame 100]) [sweep_frame 100.1 0.30, no_hand_frame 105])
       (sweep_frame 105.1 0.33) =
     detect_gesture
       ((run (run init [lick_frame 100]) [sweep_frame 100.1 0.30, no_hand_frame 105])
          \<lparr> finger_licked := False \<rparr>)
       (sweep_frame 105.1 0.33)"
proof -
  have a: "finger_licked (run init [lick_frame 100])" by code_simp
  have b: "lick_time (run init [lick_frame 100]) = 100" by code_simp
  have c: "\<forall>f' \<in> set [sweep_frame 100.1 0.30, no_hand_frame 105].
             current_time f' \<le> 100 + lick_timeout"
    by (simp add: sweep_frame_def no_hand_frame_def lick_timeout_def)
  have d: "\<forall>g \<in> set (gestures_of (run init [lick_frame 100])
                 [sweep_frame 100.1 0.30, no_hand_frame 105]). g = None"
    by code_simp
  have e: "current_time (sweep_frame 105.1 0.33) > 100 + lick_timeout"
    by (simp add: sweep_frame_def lick_timeout_def)
  have d': "gestures_of (run init [lick_frame 100])
              [sweep_frame 100.1 0.30, no_hand_frame 105] = [None, None]"
    by code_simp
  show ?thesis
    using priming_expires [OF a b c d e] a b c d' e by (simp add: list_all_iff)
qed

text \<open>
  The claim as stated in C5 fails at the boundary: priming became active at time 100,
  and the step evaluated at time 105, which is at \<open>t0 + lick_timeout\<close>, keeps it.
\<close>

theorem priming_expires_counterexample:
  "finger_licked (run init [lick_frame 100]) \<and>
   lick_time (run init [lick_frame 100]) = 100 \<and>
   current_time (no_hand_frame 105) \<ge> 100 + lick_timeout \<and>
   finger_licked (expire_lick (current_time (no_hand_frame 105)) (run init [lick_frame 100])) \<and>
   finger_licked (snd (detect_gesture (run init [lick_frame 100]) (no_hand_frame 105)))"
  by code_simp

section \<open>Cooldown\<close>

text \<open>
  The cooldown test itself: a step evaluated within \<open>gesture_cooldown\<close> of the
  \<open>last_gesture_time\<close> it finds at its start emits nothing.
\<close>

lemma track_swipe_cooldown:
  assumes "t - last_gesture_time s \<le> gesture_cooldown"
  shows "fst (track_swipe_with cls t cx tx (None, s)) = None"
  using assms by (simp add: track_swipe_with_def Let_def)

lemma cooldown_suppresses:
  assumes "length (multi_hand_landmarks f) \<le> 1"
      and "current_time f - last_gesture_time s \<le> gesture_cooldown"
  shows "fst (detect_gesture s f) = None"
proof (cases "multi_hand_landmarks f")
  case Nil
  then show ?thesis by (simp add: detect_gesture_def detect_no_hand)
next
  case (Cons hand rest)
  with assms(1) have one: "multi_hand_landmarks f = [hand]" by simp
  show ?thesis
    using assms(2)
    by (simp add: detect_gesture_def detect_one_hand [OF one] process_hand_branches
        track_swipe_cooldown)
qed

lemma fold_hands_idle:
  assumes "\<not> finger_licked (snd gs)"
      and "\<not> list_ex (\<lambda>hand. currently_at_lips hand region) hands"
  shows "fst (fold (process_hand_with cls t region) hands gs) = fst gs \<and>
         \<not> finger_licked (snd (fold (process_hand_with cls t region) hands gs))"
  using assms
proof (induction hands arbitrary: gs)
  case Nil
  then show ?case by simp
next
  case (Cons hand hands)
  have away: "\<not> currently_at_lips hand region" using Cons.prems(2) by simp
  have eq: "process_hand_with cls t region hand gs = (fst gs, reset_tracking (snd gs))"
    using away Cons.prems(1) by (simp add: process_hand_branches)
  show ?case using Cons.IH [of "(fst gs, reset_tracking (snd gs))"] Cons.prems eq by simp
qed

lemma detect_idle:
  assumes "\<not> finger_licked s" and "\<not> priming_frame f"
  shows "fst (detect_gesture s f) = None \<and> \<not> finger_licked (snd (detect_gesture s f))"
proof (cases "multi_hand_landmarks f = []")
  case True
  then show ?thesis using assms(1) by (simp add: detect_gesture_def detect_no_hand)
next
  case False
  then show ?thesis
    using assms fold_hands_idle [of "(None, s)" "lip_region_of (multi_face_landmarks f)"
        "multi_hand_landmarks f" classify_swipe "current_time f"]
    by (simp add: detect_gesture_def detect_gesture_with_def Let_def priming_frame_def)
qed

lemma run_idle:
  assumes "\<not> finger_licked s" and "\<forall>f \<in> set fs. \<not> priming_frame f"
  shows "\<not> finger_licked (run s fs)"
  using assms
proof (induction fs arbitrary: s)
  case Nil
  then show ?case by simp
next
  case (Cons f fs)
  then show ?case using detect_idle [of s f] by simp
qed

lemma detect_unprimed:
  assumes "\<not> finger_licked s" and "length (multi_hand_landmarks f) \<le> 1"
  shows "fst (detect_gesture s f) = None"
proof (cases "multi_hand_landmarks f")
  case Nil
  then show ?thesis by (simp add: detect_gesture_def detect_no_hand)
next
  case (Cons hand rest)
  with assms(2) have one: "multi_hand_landmarks f = [hand]" by simp
  show ?thesis
    using assms(1) by (simp add: detect_gesture_def detect_one_hand [OF one] process_hand_branches)
qed

text \<open>
  Claim C1, as amended.  After a step emits a swipe event at time \<open>t\<close>, a step evaluated
  at a time \<open>t'\<close> with \<open>t' - t \<le> gesture_cooldown\<close> emits no swipe event, whatever the
  motion in between, provided no frame in between shows the priming pose.  Frames carry
  at most one hand (\<open>max_num_hands=1\<close>); the frames in between may be arbitrary
  otherwise.  The emitting step disarms priming, so without a new priming pose the
  conclusion holds at every later time as well.
\<close>

theorem cooldown_without_repriming:
  assumes "fst (detect_gesture s f0) \<noteq> None"
      and "length (multi_hand_landmarks f0) \<le> 1"
      and "\<forall>f \<in> set fs. \<not> priming_frame f"
      and "length (multi_hand_landmarks f1) \<le> 1"
      and "current_time f1 - current_time f0 \<le> gesture_cooldown"
  shows "fst (detect_gesture (run (snd (detect_gesture s f0)) fs) f1) = None"
proof -
  from assms(1) obtain d where "fst (detect_gesture_with classify_swipe s f0) = Some d"
    by (auto simp add: detect_gesture_def)
  from detect_emits [OF assms(2) this]
  have "\<not> finger_licked (snd (detect_gesture s f0))" by (simp add: detect_gesture_def)
  then have "\<not> finger_licked (run (snd (detect_gesture s f0)) fs)"
    using assms(3) by (rule run_idle)
  then show ?thesis using assms(4) by (rule detect_unprimed)
qed

theorem cooldown_without_repriming_witness:
  "fst (detect_gesture (run init primed_sweep) (sweep_frame 100.5 0.45)) \<noteq> None \<and>
   length (multi_hand_landmarks (sweep_frame 100.5 0.45)) \<le> 1 \<and>
   list_all (\<lambda>f. \<not> priming_frame f) second_sweep \<and>
   length (multi_hand_landmarks (sweep_frame 101.1 0.45)) \<le> 1 \<and>
   current_time (sweep_frame 101.1 0.45) - current_time (sweep_frame 100.5 0.45)
     \<le> gesture_cooldown \<and>
   fst (detect_gesture
          (run (snd (detect_gesture (run init primed_sweep) (sweep_frame 100.5 0.45)))
             second_sweep)
          (sweep_frame 101.1 0.45)) = None"
proof -
  have a: "fst (detect_gesture (run init primed_sweep) (sweep_frame 100.5 0.45)) \<noteq> None"
    by code_simp
  have b: "length (multi_hand_landmarks (sweep_frame 100.5 0.45)) \<le> 1"
    by (simp add: sweep_frame_def)
  have c: "\<forall>f \<in> set second_sweep. \<not> priming_frame f" by code_simp
  have d: "length (multi_hand_landmarks (sweep_frame 101.1 0.45)) \<le> 1"
    by (simp add: sweep_frame_def)
  have e: "current_time (sweep_frame 101.1 0.45) - current_time (sweep_frame 100.5 0.45)
             \<le> gesture_cooldown"
    by (simp add: sweep_frame_def gesture_cooldown_def)
  show ?thesis
    using cooldown_without_repriming [OF a b c d e] a b c d e by (simp add: list_all_iff)
qed

text \<open>
  The claim as stated in C1 fails: a new priming pose sets \<open>last_gesture_time\<close> back to
  0.  In the run below a swipe is emitted at time 100.5, the priming pose is shown at
  100.6, and a second swipe is emitted at 101.1, which is 0.6 s after the first.
\<close>

theorem cooldown_counterexample:
  "gestures_of init repriming_run =
     [None, None, None, None, None, Some Right, None, None, None, None, None, Some Right] \<and>
   map current_time repriming_run =
     [100, 100.1, 100.2, 100.3, 100.4, 100.5, 100.6, 100.7, 100.8, 100.9, 101.0, 101.1] \<and>
   (101.1 :: real) - 100.5 \<le> gesture_cooldown"
  by code_simp

end
